theory Spec2Isabelle
  imports Complex_Main "HOL-Library.AList" "HOL-Library.Sublist"
begin

section \<open>Data model (api.go)\<close>

text \<open>
  The structs of api.go as records. A \<open>float64\<close> field that is decoded from a JSON
  request is a finite number and is modelled as a \<open>real\<close>; the only operation the
  handlers perform on such a field is the comparison of the radius with zero.
  \<open>time.Time\<close> is a number of nanoseconds. Go's \<open>int\<close> is modelled as \<open>int\<close>: the
  handlers never compute with the limit, they only compare it with zero and pass it on.
\<close>

type_synonym time = nat

record Driver =
  ID :: string
  IsActive :: bool
  Latitude :: real
  Longitude :: real
  LastPing :: time

record LocationUpdate =
  DriverID :: string
  UpdLatitude :: real
  UpdLongitude :: real
  UpdIsActive :: bool

record NearbyRequest =
  ReqLatitude :: real
  ReqLongitude :: real
  Radius :: real
  Limit :: int

definition GeoSetKey :: string where
  "GeoSetKey = ''driver_locations''"

definition DriverPrefix :: string where
  "DriverPrefix = ''driver:''"

definition ActiveSetKey :: string where
  "ActiveSetKey = ''active_drivers''"

definition Minute :: time where
  "Minute = 60000000000"

text \<open>
  The responses written by \<open>respondWithError\<close> and \<open>respondWithJSON\<close>: a status code
  with a message, or a status code with a payload. The text of the underlying store
  error that the source appends to some messages is left out.
\<close>

datatype 'a response = respondWithError nat string | respondWithJSON nat 'a

text \<open>
  One element of the list answered by \<open>FindNearbyDrivers\<close>: the
  \<open>map[string]interface{}\<close> with the keys id, distance, latitude, longitude,
  isActive and, in one branch only, lastPing.
\<close>

record summary =
  sum_id :: string
  sum_distance :: real
  sum_latitude :: real
  sum_longitude :: real
  sum_isActive :: bool
  sum_lastPing :: "time option"

section \<open>The backing store\<close>

text \<open>
  The Redis database as the handlers see it: string keys with an expiry deadline (the
  detail records), sorted sets of geo members (the geo index, kept as an association
  list from member name to longitude and latitude) and plain sets (the active set).
  The value type \<open>'v\<close> stands for the bytes produced by \<open>json.Marshal\<close>.
  A key whose deadline has passed stays in \<open>kv\<close> and is invisible to \<open>Get\<close>.
\<close>

record 'v store =
  kv :: "string \<Rightarrow> ('v \<times> time) option"
  geo :: "string \<Rightarrow> (string \<times> real \<times> real) list"
  members :: "string \<Rightarrow> string set"
  clock :: time

definition empty_store :: "'v store" where
  "empty_store = \<lparr>kv = (\<lambda>k. None), geo = (\<lambda>k. []), members = (\<lambda>k. {}), clock = 0\<rparr>"

datatype redis_error = RedisNil | RedisFailure

text \<open>The commands that the handlers queue on a pipeline.\<close>

datatype 'v cmd =
    CmdSet string 'v time
  | CmdGeoAdd string string real real
  | CmdSAdd string string
  | CmdSRem string string
  | CmdZRem string string

text \<open>
  The geo index accepts longitudes in [-180, 180] and latitudes in
  [-85.05112878, 85.05112878]; GEOADD answers an error for any other pair.
\<close>

definition valid_coord :: "real \<Rightarrow> real \<Rightarrow> bool" where
  "valid_coord lon lat =
     (-180 \<le> lon \<and> lon \<le> 180 \<and> -85.05112878 \<le> lat \<and> lat \<le> 85.05112878)"

text \<open>The effect of one command, and whether the store answered it without an error.\<close>

fun apply_cmd :: "'v cmd \<Rightarrow> 'v store \<Rightarrow> 'v store \<times> bool" where
  "apply_cmd (CmdSet k v ttl) st = (st\<lparr>kv := (kv st)(k \<mapsto> (v, clock st + ttl))\<rparr>, True)"
| "apply_cmd (CmdGeoAdd k name lon lat) st =
     (if valid_coord lon lat
      then (st\<lparr>geo := (geo st)(k := AList.update name (lon, lat) (geo st k))\<rparr>, True)
      else (st, False))"
| "apply_cmd (CmdSAdd k m) st = (st\<lparr>members := (members st)(k := insert m (members st k))\<rparr>, True)"
| "apply_cmd (CmdSRem k m) st = (st\<lparr>members := (members st)(k := members st k - {m})\<rparr>, True)"
| "apply_cmd (CmdZRem k m) st = (st\<lparr>geo := (geo st)(k := AList.delete m (geo st k))\<rparr>, True)"

fun run_cmds :: "'v cmd list \<Rightarrow> 'v store \<Rightarrow> 'v store \<times> bool" where
  "run_cmds [] st = (st, True)"
| "run_cmds (c # cs) st =
     (let (st1, ok) = apply_cmd c st; (st2, oks) = run_cmds cs st1 in (st2, ok \<and> oks))"

text \<open>
  \<open>pipe.Exec\<close>: the queued commands are sent in order, without a transaction. Either
  all of them reach the store, and Exec reports an error when one of them was answered
  with an error; or the connection breaks after the first \<open>n\<close> commands were applied,
  and Exec reports an error. The boolean is \<open>err == nil\<close>.
\<close>

datatype fault = NoFault | BreakAt nat

fun Exec :: "fault \<Rightarrow> 'v cmd list \<Rightarrow> 'v store \<Rightarrow> 'v store \<times> bool" where
  "Exec NoFault cs st = run_cmds cs st"
| "Exec (BreakAt n) cs st = (fst (run_cmds (take n cs) st), False)"

text \<open>
  What the program takes from its libraries and its store without defining it:
  \<open>json.Marshal\<close> and \<open>json.Unmarshal\<close> on a Driver, and the distance in kilometres
  that the geo index computes between the query centre and a member (both given as
  longitude, latitude).
\<close>

record 'v env =
  marshal :: "Driver \<Rightarrow> 'v option"
  unmarshal :: "'v \<Rightarrow> Driver option"
  geodist :: "real \<times> real \<Rightarrow> real \<times> real \<Rightarrow> real"

text \<open>
  Which of the single store calls made by a read-only handler fail with a store error
  (an error other than \<open>redis.Nil\<close>): the radius search, the membership test of a given
  id, the GET of a given key.
\<close>

record failures =
  GeoRadiusErr :: bool
  SIsMemberErr :: "string \<Rightarrow> bool"
  GetErr :: "string \<Rightarrow> bool"

definition Get :: "failures \<Rightarrow> 'v store \<Rightarrow> string \<Rightarrow> redis_error + 'v" where
  "Get f st key =
     (if GetErr f key then Inl RedisFailure
      else case kv st key of
             None \<Rightarrow> Inl RedisNil
           | Some (v, deadline) \<Rightarrow> if clock st < deadline then Inr v else Inl RedisNil)"

definition SIsMember :: "failures \<Rightarrow> 'v store \<Rightarrow> string \<Rightarrow> string \<Rightarrow> redis_error + bool" where
  "SIsMember f st key m =
     (if SIsMemberErr f m then Inl RedisFailure else Inr (m \<in> members st key))"

record GeoLocation =
  Name :: string
  GeoLongitude :: real
  GeoLatitude :: real
  Dist :: real

text \<open>
  The two fields of \<open>redis.GeoRadiusQuery\<close> that vary; the source fixes the others
  (unit km, WithCoord, WithDist, no hash, sort ASC) and the model of the search has them
  built in.
\<close>

record GeoRadiusQuery =
  QRadius :: real
  Count :: int

text \<open>
  The radius search of the geo index as the client library issues it: the members within
  the radius (boundary included) with their coordinates and distance, by ascending
  distance; the client sends the COUNT option only when \<open>Count\<close> is positive, so any
  other count leaves the answer uncapped. The store refuses a negative radius.
\<close>

definition in_radius :: "'v env \<Rightarrow> real \<Rightarrow> real \<Rightarrow> real \<Rightarrow> (string \<times> real \<times> real) list \<Rightarrow> GeoLocation list" where
  "in_radius env lon lat r idx =
     filter (\<lambda>loc. Dist loc \<le> r)
       (map (\<lambda>(n, lo, la). \<lparr>Name = n, GeoLongitude = lo, GeoLatitude = la,
                            Dist = geodist env (lon, lat) (lo, la)\<rparr>) idx)"

definition GeoRadius ::
  "'v env \<Rightarrow> failures \<Rightarrow> 'v store \<Rightarrow> string \<Rightarrow> real \<Rightarrow> real \<Rightarrow> GeoRadiusQuery \<Rightarrow> redis_error + GeoLocation list" where
  "GeoRadius env f st key lon lat q =
     (if GeoRadiusErr f \<or> QRadius q < 0 then Inl RedisFailure
      else let found = sort_key Dist (in_radius env lon lat (QRadius q) (geo st key))
           in Inr (if 0 < Count q then take (nat (Count q)) found else found))"

section \<open>The handlers (api.go)\<close>

text \<open>
  \<open>UpdateDriverLocation\<close>. The body is \<open>None\<close> when the JSON decoder fails; \<open>now\<close> is the
  reading of \<open>time.Now()\<close>. The pipeline is the list of queued commands, in the order
  the source queues them.
\<close>

definition update_pipe :: "LocationUpdate \<Rightarrow> 'v \<Rightarrow> 'v cmd list" where
  "update_pipe update driverData =
     (let pipe = [];
          driverKey = DriverPrefix @ DriverID update;
          pipe = pipe @ [CmdSet driverKey driverData (1 * Minute)];
          pipe = pipe @ [CmdGeoAdd GeoSetKey (DriverID update) (UpdLongitude update) (UpdLatitude update)];
          pipe = (if UpdIsActive update
                  then pipe @ [CmdSAdd ActiveSetKey (DriverID update)]
                  else pipe @ [CmdSRem ActiveSetKey (DriverID update)])
      in pipe)"

definition UpdateDriverLocation ::
  "'v env \<Rightarrow> fault \<Rightarrow> LocationUpdate option \<Rightarrow> time \<Rightarrow> 'v store \<Rightarrow> string response \<times> 'v store" where
  "UpdateDriverLocation env f body now st =
     (case body of
        None \<Rightarrow> (respondWithError 400 ''Invalid request payload'', st)
      | Some update \<Rightarrow>
          let driver = \<lparr>ID = DriverID update, IsActive = UpdIsActive update,
                        Latitude = UpdLatitude update, Longitude = UpdLongitude update,
                        LastPing = now\<rparr>
          in case marshal env driver of
               None \<Rightarrow> (respondWithError 500 ''Failed to serialize driver data'', st)
             | Some driverData \<Rightarrow>
                 let (st1, ok) = Exec f (update_pipe update driverData) st
                 in if \<not> ok then (respondWithError 500 ''Redis operation failed'', st1)
                    else (respondWithJSON 200 ''Driver location updated successfully'', st1))"

text \<open>
  \<open>FindNearbyDrivers\<close>. The loop over the candidates appends to \<open>activeDrivers\<close>; a
  failing membership test skips the candidate, a failing GET or a failing parse appends
  the fallback summary built from the candidate alone.
\<close>

definition fallback :: "GeoLocation \<Rightarrow> summary" where
  "fallback loc =
     \<lparr>sum_id = Name loc, sum_distance = Dist loc, sum_latitude = GeoLatitude loc,
      sum_longitude = GeoLongitude loc, sum_isActive = True, sum_lastPing = None\<rparr>"

definition driverWithDist :: "Driver \<Rightarrow> GeoLocation \<Rightarrow> summary" where
  "driverWithDist driver loc =
     \<lparr>sum_id = ID driver, sum_distance = Dist loc, sum_latitude = Latitude driver,
      sum_longitude = Longitude driver, sum_isActive = IsActive driver,
      sum_lastPing = Some (LastPing driver)\<rparr>"

fun nearby_loop ::
  "'v env \<Rightarrow> failures \<Rightarrow> 'v store \<Rightarrow> GeoLocation list \<Rightarrow> summary list \<Rightarrow> summary list" where
  "nearby_loop env f st [] activeDrivers = activeDrivers"
| "nearby_loop env f st (loc # locations) activeDrivers =
     (let driverID = Name loc in
      case SIsMember f st ActiveSetKey driverID of
        Inl err \<Rightarrow> nearby_loop env f st locations activeDrivers
      | Inr isActive \<Rightarrow>
          if isActive then
            (let driverKey = DriverPrefix @ driverID in
             case Get f st driverKey of
               Inl err \<Rightarrow> nearby_loop env f st locations (activeDrivers @ [fallback loc])
             | Inr driverData \<Rightarrow>
                 (case unmarshal env driverData of
                    None \<Rightarrow> nearby_loop env f st locations (activeDrivers @ [fallback loc])
                  | Some driver \<Rightarrow>
                      nearby_loop env f st locations (activeDrivers @ [driverWithDist driver loc])))
          else nearby_loop env f st locations activeDrivers)"

text \<open>Lines 113 to 119: the defaults, applied to the decoded request.\<close>

definition with_defaults :: "NearbyRequest \<Rightarrow> NearbyRequest" where
  "with_defaults req0 =
     (let req1 = (if Radius req0 = 0 then req0\<lparr>Radius := 5\<rparr> else req0);
          req2 = (if Limit req1 = 0 then req1\<lparr>Limit := 10\<rparr> else req1)
      in req2)"

text \<open>Lines 123 to 139: the options of the radius search and the search itself.\<close>

definition radius_search ::
  "'v env \<Rightarrow> failures \<Rightarrow> NearbyRequest \<Rightarrow> 'v store \<Rightarrow> redis_error + GeoLocation list" where
  "radius_search env f req st =
     (let geoOptions = \<lparr>QRadius = Radius req, Count = Limit req\<rparr>
      in GeoRadius env f st GeoSetKey (ReqLongitude req) (ReqLatitude req) geoOptions)"

definition FindNearbyDrivers ::
  "'v env \<Rightarrow> failures \<Rightarrow> NearbyRequest option \<Rightarrow> 'v store \<Rightarrow> summary list response" where
  "FindNearbyDrivers env f body st =
     (case body of
        None \<Rightarrow> respondWithError 400 ''Invalid request payload''
      | Some req0 \<Rightarrow>
          (case radius_search env f (with_defaults req0) st of
             Inl err \<Rightarrow> respondWithError 500 ''Geospatial query failed''
           | Inr locations \<Rightarrow> respondWithJSON 200 (nearby_loop env f st locations [])))"

text \<open>\<open>GetDriver\<close>, given the id taken from the request path.\<close>

definition GetDriver :: "'v env \<Rightarrow> failures \<Rightarrow> string \<Rightarrow> 'v store \<Rightarrow> Driver response" where
  "GetDriver env f driverID st =
     (let driverKey = DriverPrefix @ driverID in
      case Get f st driverKey of
        Inl RedisNil \<Rightarrow> respondWithError 404 ''Driver not found''
      | Inl RedisFailure \<Rightarrow> respondWithError 500 ''Redis operation failed''
      | Inr driverData \<Rightarrow>
          (case unmarshal env driverData of
             None \<Rightarrow> respondWithError 500 ''Failed to parse driver data''
           | Some driver \<Rightarrow> respondWithJSON 200 driver))"

section \<open>The expiration listener (main.go)\<close>

definition HasPrefix :: "string \<Rightarrow> string \<Rightarrow> bool" where
  "HasPrefix s p = (length p \<le> length s \<and> take (length p) s = p)"

definition TrimPrefix :: "string \<Rightarrow> string \<Rightarrow> string" where
  "TrimPrefix s p = (if HasPrefix s p then drop (length p) s else s)"

definition expired_pipe :: "string \<Rightarrow> 'v cmd list" where
  "expired_pipe driverID =
     (let pipe = [];
          pipe = pipe @ [CmdZRem GeoSetKey driverID];
          pipe = pipe @ [CmdSRem ActiveSetKey driverID]
      in pipe)"

text \<open>
  \<open>setupExpirationListener\<close>. The goroutine's loop over the notification channel is a
  recursion over the messages that arrive, each with the outcome of its batch;
  \<open>on_expired\<close> is the body of the loop for one message. The state of the listener is
  the store, the log written so far and the batches sent so far.
\<close>

record 'v reaper =
  r_store :: "'v store"
  r_log :: "string list"
  r_sent :: "'v cmd list list"

definition on_expired :: "string \<times> fault \<Rightarrow> 'v reaper \<Rightarrow> 'v reaper" where
  "on_expired msg r =
     (let key = fst msg in
      if HasPrefix key DriverPrefix then
        (let driverID = TrimPrefix key DriverPrefix;
             pipe = expired_pipe driverID;
             (st1, ok) = Exec (snd msg) pipe (r_store r);
             r1 = r\<lparr>r_store := st1, r_sent := r_sent r @ [pipe]\<rparr>
         in if \<not> ok then r1\<lparr>r_log := r_log r1 @ [''Error cleaning up expired driver '' @ driverID]\<rparr>
            else r1)
      else r)"

fun setupExpirationListener :: "(string \<times> fault) list \<Rightarrow> 'v reaper \<Rightarrow> 'v reaper" where
  "setupExpirationListener [] r = r"
| "setupExpirationListener (msg # ch) r = setupExpirationListener ch (on_expired msg r)"

section \<open>Runs of the service\<close>

text \<open>
  What changes the store: a location update (with the outcome of its batch, the decoded
  body and the time of the request), an expiry notification handled by the listener
  (with the outcome of its batch), and the passing of time. A reachable state is the
  result of a run from the empty store.
\<close>

datatype event =
    EvUpdate fault "LocationUpdate option" time
  | EvExpired string fault
  | EvTick nat

fun step :: "'v env \<Rightarrow> event \<Rightarrow> 'v store \<Rightarrow> 'v store" where
  "step env (EvUpdate f body now) st = snd (UpdateDriverLocation env f body now st)"
| "step env (EvExpired key f) st =
     r_store (on_expired (key, f) \<lparr>r_store = st, r_log = [], r_sent = []\<rparr>)"
| "step env (EvTick n) st = st\<lparr>clock := clock st + n\<rparr>"

fun run :: "'v env \<Rightarrow> event list \<Rightarrow> 'v store \<Rightarrow> 'v store" where
  "run env [] st = st"
| "run env (e # es) st = run env es (step env e st)"

fun updates :: "string \<Rightarrow> event \<Rightarrow> bool" where
  "updates x (EvUpdate f (Some u) now) = (DriverID u = x)"
| "updates x e = False"

text \<open>
  An instance on which the model runs: a serialized driver is the driver itself or
  bytes that do not parse, and the distance is a stand-in for the great-circle distance
  of the index.
\<close>

datatype bytes = Json Driver | Malformed

definition codec :: "bytes env" where
  "codec = \<lparr>marshal = (\<lambda>d. Some (Json d)),
            unmarshal = (\<lambda>b. case b of Json d \<Rightarrow> Some d | Malformed \<Rightarrow> None),
            geodist = (\<lambda>(lon1, lat1) (lon2, lat2). \<bar>lon1 - lon2\<bar> + \<bar>lat1 - lat2\<bar>)\<rparr>"

definition no_failures :: failures where
  "no_failures = \<lparr>GeoRadiusErr = False, SIsMemberErr = (\<lambda>m. False), GetErr = (\<lambda>k. False)\<rparr>"

text \<open>
  What one pass of the loop body of \<open>FindNearbyDrivers\<close> appends for a candidate: nothing,
  the fallback summary, or the summary built from the parsed detail record.
\<close>

definition emitted :: "'v env \<Rightarrow> failures \<Rightarrow> 'v store \<Rightarrow> GeoLocation \<Rightarrow> summary list" where
  "emitted env f st loc =
     (case SIsMember f st ActiveSetKey (Name loc) of
        Inl err \<Rightarrow> []
      | Inr isActive \<Rightarrow>
          if isActive then
            (case Get f st (DriverPrefix @ Name loc) of
               Inl err \<Rightarrow> [fallback loc]
             | Inr driverData \<Rightarrow>
                 (case unmarshal env driverData of
                    None \<Rightarrow> [fallback loc]
                  | Some driver \<Rightarrow> [driverWithDist driver loc]))
          else [])"

text \<open>
  A summary stands for a candidate when it carries the candidate's distance and is one
  of the two summaries the loop builds from it.
\<close>

definition summarises :: "summary \<Rightarrow> GeoLocation \<Rightarrow> bool" where
  "summarises s loc =
     (sum_distance s = Dist loc \<and> (s = fallback loc \<or> (\<exists>driver. s = driverWithDist driver loc)))"

text \<open>
  The invariant of the detail records: a value that parses sits under the key of the
  driver it parses to. The commands that keep it, and the commands that add a given id
  to a set.
\<close>

definition keyed :: "'v env \<Rightarrow> 'v store \<Rightarrow> bool" where
  "keyed env st =
     (\<forall>k v deadline d. kv st k = Some (v, deadline) \<longrightarrow> unmarshal env v = Some d \<longrightarrow>
        k = DriverPrefix @ ID d)"

fun keyed_cmd :: "'v env \<Rightarrow> 'v cmd \<Rightarrow> bool" where
  "keyed_cmd env (CmdSet k v ttl) = (\<forall>d. unmarshal env v = Some d \<longrightarrow> k = DriverPrefix @ ID d)"
| "keyed_cmd env c = True"

fun adds :: "string \<Rightarrow> 'v cmd \<Rightarrow> bool" where
  "adds x (CmdSAdd k m) = (m = x)"
| "adds x c = False"

text \<open>The requests of the scenarios on which the theorems below are run.\<close>

definition upd_d1 :: LocationUpdate where
  "upd_d1 = \<lparr>DriverID = ''d1'', UpdLatitude = 10, UpdLongitude = 20, UpdIsActive = True\<rparr>"

definition upd_d1_pole :: LocationUpdate where
  "upd_d1_pole = \<lparr>DriverID = ''d1'', UpdLatitude = 90, UpdLongitude = 20, UpdIsActive = True\<rparr>"

definition query_d1 :: NearbyRequest where
  "query_d1 = \<lparr>ReqLatitude = 10, ReqLongitude = 20, Radius = 0, Limit = 0\<rparr>"

definition loc_d1 :: GeoLocation where
  "loc_d1 = \<lparr>Name = ''d1'', GeoLongitude = 20, GeoLatitude = 10, Dist = 0\<rparr>"

definition upd_d1_off :: LocationUpdate where
  "upd_d1_off = \<lparr>DriverID = ''d1'', UpdLatitude = 10, UpdLongitude = 20, UpdIsActive = False\<rparr>"

definition upd_d2 :: LocationUpdate where
  "upd_d2 = \<lparr>DriverID = ''d2'', UpdLatitude = 10, UpdLongitude = 21, UpdIsActive = True\<rparr>"

definition upd_anonymous :: LocationUpdate where
  "upd_anonymous = \<lparr>DriverID = [], UpdLatitude = 10, UpdLongitude = 20, UpdIsActive = True\<rparr>"

definition query_one :: NearbyRequest where
  "query_one = \<lparr>ReqLatitude = 10, ReqLongitude = 20, Radius = 5, Limit = 1\<rparr>"

definition query_uncapped :: NearbyRequest where
  "query_uncapped = \<lparr>ReqLatitude = 10, ReqLongitude = 20, Radius = 5, Limit = - 1\<rparr>"

definition reaper_d1 :: "bytes reaper" where
  "reaper_d1 = \<lparr>r_store = run codec [EvUpdate NoFault (Some upd_d1) 7] empty_store,
                 r_log = [], r_sent = []\<rparr>"

section \<open>Unfolding the model\<close>

lemmas model_defs =
  emitted_def FindNearbyDrivers_def with_defaults_def radius_search_def GeoRadius_def in_radius_def
  UpdateDriverLocation_def update_pipe_def GetDriver_def Get_def SIsMember_def
  on_expired_def expired_pipe_def HasPrefix_def TrimPrefix_def
  valid_coord_def GeoSetKey_def ActiveSetKey_def DriverPrefix_def Minute_def
  driverWithDist_def fallback_def empty_store_def codec_def no_failures_def

lemmas scenario_defs =
  upd_d1_def upd_d1_pole_def upd_d1_off_def upd_d2_def upd_anonymous_def
  query_d1_def query_one_def query_uncapped_def loc_d1_def reaper_d1_def

section \<open>The loop over the candidates\<close>

lemma nearby_loop_step:
  "nearby_loop env f st (loc # locs) acc = nearby_loop env f st locs (acc @ emitted env f st loc)"
  by (simp add: emitted_def split: sum.split option.split)

lemma nearby_loop_concat:
  "nearby_loop env f st locs acc = acc @ concat (map (emitted env f st) locs)"
proof (induction locs arbitrary: acc)
  case Nil
  show ?case by simp
next
  case (Cons loc locs)
  show ?case
    unfolding nearby_loop_step by (simp add: Cons.IH)
qed

lemma nearby_loop_split:
  "nearby_loop env f st (pre @ loc # post) [] =
     nearby_loop env f st pre [] @ emitted env f st loc @ nearby_loop env f st post []"
  by (simp add: nearby_loop_concat)

lemma FindNearbyDrivers_ok:
  "radius_search env f (with_defaults req) st = Inr locs \<Longrightarrow>
   FindNearbyDrivers env f (Some req) st = respondWithJSON 200 (nearby_loop env f st locs [])"
  by (simp add: FindNearbyDrivers_def)

section \<open>Enrichment of a candidate\<close>

text \<open>
  C1, as the code has it. When a candidate of the radius search is in the active set and
  its detail record is fetched and parses, the summary emitted at the candidate's place
  carries the distance of the geo index, and the id, latitude, longitude, active flag
  and last ping of the detail record.
\<close>

theorem enriched_fields:
  assumes "radius_search env f (with_defaults req) st = Inr (pre @ loc # post)"
    and "SIsMember f st ActiveSetKey (Name loc) = Inr True"
    and "Get f st (DriverPrefix @ Name loc) = Inr driverData"
    and "unmarshal env driverData = Some driver"
  shows "FindNearbyDrivers env f (Some req) st =
           respondWithJSON 200
             (nearby_loop env f st pre [] @
              [\<lparr>sum_id = ID driver, sum_distance = Dist loc, sum_latitude = Latitude driver,
                sum_longitude = Longitude driver, sum_isActive = IsActive driver,
                sum_lastPing = Some (LastPing driver)\<rparr>] @
              nearby_loop env f st post [])"
proof -
  have "emitted env f st loc = [driverWithDist driver loc]"
    using assms(2-4) by (simp add: emitted_def)
  then show ?thesis
    using assms(1) by (simp add: FindNearbyDrivers_ok nearby_loop_split driverWithDist_def)
qed

text \<open>
  The theorem at work: driver d1 reports (10, 20) at time 7 and is found, with the
  fields of its record, by a query centred there.
\<close>

theorem enriched_fields_witness:
  "radius_search codec no_failures (with_defaults query_d1)
       (run codec [EvUpdate NoFault (Some upd_d1) 7] empty_store) = Inr ([] @ loc_d1 # [])
   \<and> SIsMember no_failures (run codec [EvUpdate NoFault (Some upd_d1) 7] empty_store)
         ActiveSetKey (Name loc_d1) = Inr True
   \<and> FindNearbyDrivers codec no_failures (Some query_d1)
       (run codec [EvUpdate NoFault (Some upd_d1) 7] empty_store)
     = respondWithJSON 200
         [\<lparr>sum_id = ''d1'', sum_distance = 0, sum_latitude = 10, sum_longitude = 20,
           sum_isActive = True, sum_lastPing = Some 7\<rparr>]"
  using enriched_fields [of codec no_failures query_d1
      "run codec [EvUpdate NoFault (Some upd_d1) 7] empty_store" "[]" loc_d1 "[]"
      "Json \<lparr>ID = ''d1'', IsActive = True, Latitude = 10, Longitude = 20, LastPing = 7\<rparr>"
      "\<lparr>ID = ''d1'', IsActive = True, Latitude = 10, Longitude = 20, LastPing = 7\<rparr>"]
  by (simp add: model_defs scenario_defs)

text \<open>
  C1 as the spec states it fails. Driver d1 reports (10, 20), then reports latitude 90:
  the second batch rewrites the detail record, the geo index refuses the pair and keeps
  (10, 20). The radius search answers latitude 10 for d1, and the emitted summary
  carries latitude 90, the one stored in the detail record.
\<close>

theorem record_coordinates_emitted:
  "radius_search codec no_failures (with_defaults query_d1)
       (run codec [EvUpdate NoFault (Some upd_d1) 7, EvUpdate NoFault (Some upd_d1_pole) 9] empty_store)
     = Inr [\<lparr>Name = ''d1'', GeoLongitude = 20, GeoLatitude = 10, Dist = 0\<rparr>]
   \<and> FindNearbyDrivers codec no_failures (Some query_d1)
       (run codec [EvUpdate NoFault (Some upd_d1) 7, EvUpdate NoFault (Some upd_d1_pole) 9] empty_store)
     = respondWithJSON 200
         [\<lparr>sum_id = ''d1'', sum_distance = 0, sum_latitude = 90, sum_longitude = 20,
           sum_isActive = True, sum_lastPing = Some 9\<rparr>]"
  by (simp add: model_defs scenario_defs)

text \<open>
  C2. When a candidate of the radius search is in the active set and its detail record
  cannot be fetched (absent, expired, or a store error) or does not parse, the query
  still answers 200, and the summary emitted at the candidate's place carries the name,
  distance and coordinates of the geo index, with the active flag set and no last ping.
\<close>

theorem fallback_on_missing_record:
  assumes "radius_search env f (with_defaults req) st = Inr (pre @ loc # post)"
    and "SIsMember f st ActiveSetKey (Name loc) = Inr True"
    and "(\<exists>err. Get f st (DriverPrefix @ Name loc) = Inl err) \<or>
         (\<exists>driverData. Get f st (DriverPrefix @ Name loc) = Inr driverData \<and>
                        unmarshal env driverData = None)"
  shows "FindNearbyDrivers env f (Some req) st =
           respondWithJSON 200
             (nearby_loop env f st pre [] @
              [\<lparr>sum_id = Name loc, sum_distance = Dist loc, sum_latitude = GeoLatitude loc,
                sum_longitude = GeoLongitude loc, sum_isActive = True, sum_lastPing = None\<rparr>] @
              nearby_loop env f st post [])"
proof -
  have "emitted env f st loc = [fallback loc]"
    using assms(2,3) by (auto simp add: emitted_def)
  then show ?thesis
    using assms(1) by (simp add: FindNearbyDrivers_ok nearby_loop_split fallback_def)
qed

text \<open>
  The theorem at work: the record of d1 has expired a minute after its report and no
  notification was handled; d1 is emitted from the geo index alone.
\<close>

theorem fallback_on_missing_record_witness:
  "Get no_failures (run codec [EvUpdate NoFault (Some upd_d1) 7, EvTick Minute] empty_store)
       (DriverPrefix @ Name loc_d1) = Inl RedisNil
   \<and> FindNearbyDrivers codec no_failures (Some query_d1)
       (run codec [EvUpdate NoFault (Some upd_d1) 7, EvTick Minute] empty_store)
     = respondWithJSON 200
         [\<lparr>sum_id = ''d1'', sum_distance = 0, sum_latitude = 10, sum_longitude = 20,
           sum_isActive = True, sum_lastPing = None\<rparr>]"
  using fallback_on_missing_record [of codec no_failures query_d1
      "run codec [EvUpdate NoFault (Some upd_d1) 7, EvTick Minute] empty_store" "[]" loc_d1 "[]"]
  by (simp add: model_defs scenario_defs)

text \<open>
  C9. When the membership test of a candidate fails with a store error, the query still
  answers 200 and nothing is emitted at the candidate's place: the answer is made of
  what the loop emits for the candidates before it and after it.
\<close>

theorem membership_error_skips:
  assumes "radius_search env f (with_defaults req) st = Inr (pre @ loc # post)"
    and "SIsMember f st ActiveSetKey (Name loc) = Inl err"
  shows "FindNearbyDrivers env f (Some req) st =
           respondWithJSON 200 (nearby_loop env f st pre [] @ nearby_loop env f st post [])"
proof -
  have "emitted env f st loc = []"
    using assms(2) by (simp add: emitted_def)
  then show ?thesis
    using assms(1) by (simp add: FindNearbyDrivers_ok nearby_loop_split)
qed

text \<open>
  The theorem at work: d1 is active and in range, the membership test for d1 fails, and
  the answer is the empty list with status 200.
\<close>

theorem membership_error_skips_witness:
  "SIsMember (no_failures\<lparr>SIsMemberErr := (\<lambda>m. m = ''d1'')\<rparr>)
       (run codec [EvUpdate NoFault (Some upd_d1) 7] empty_store) ActiveSetKey (Name loc_d1)
     = Inl RedisFailure
   \<and> FindNearbyDrivers codec (no_failures\<lparr>SIsMemberErr := (\<lambda>m. m = ''d1'')\<rparr>) (Some query_d1)
       (run codec [EvUpdate NoFault (Some upd_d1) 7] empty_store)
     = respondWithJSON 200 []"
  using membership_error_skips [of codec "no_failures\<lparr>SIsMemberErr := (\<lambda>m. m = ''d1'')\<rparr>" query_d1
      "run codec [EvUpdate NoFault (Some upd_d1) 7] empty_store" "[]" loc_d1 "[]" RedisFailure]
  by (simp add: model_defs scenario_defs)

section \<open>Defaults of the proximity query\<close>

text \<open>
  C7. A query with radius 0 is answered exactly as the same query with radius 5, and a
  query with limit 0 exactly as the same query with limit 10, in every store and under
  every pattern of store failures.
\<close>

theorem nearby_defaults:
  "FindNearbyDrivers env f (Some (req\<lparr>Radius := 0\<rparr>)) st
     = FindNearbyDrivers env f (Some (req\<lparr>Radius := 5\<rparr>)) st
   \<and> FindNearbyDrivers env f (Some (req\<lparr>Limit := 0\<rparr>)) st
     = FindNearbyDrivers env f (Some (req\<lparr>Limit := 10\<rparr>)) st"
  by (simp add: FindNearbyDrivers_def with_defaults_def radius_search_def)

section \<open>Order and size of the answer\<close>

lemma emitted_cases:
  "emitted env f st loc = [] \<or> (\<exists>s. emitted env f st loc = [s] \<and> summarises s loc)"
  by (auto simp add: emitted_def summarises_def fallback_def driverWithDist_def
      split: sum.split option.split)

lemma concat_emitted_kept:
  "list_all2 summarises (concat (map (emitted env f st) locs))
     (filter (\<lambda>loc. emitted env f st loc \<noteq> []) locs)"
proof (induction locs)
  case Nil
  show ?case by simp
next
  case (Cons loc locs)
  from emitted_cases [of env f st loc] show ?case
  proof
    assume "emitted env f st loc = []"
    then show ?thesis using Cons.IH by simp
  next
    assume "\<exists>s. emitted env f st loc = [s] \<and> summarises s loc"
    then obtain s where "emitted env f st loc = [s]" and "summarises s loc" by blast
    then show ?thesis using Cons.IH by simp
  qed
qed

lemma concat_emitted_exact:
  "list_all2 (\<lambda>s loc. emitted env f st loc = [s]) (concat (map (emitted env f st) locs))
     (filter (\<lambda>loc. emitted env f st loc \<noteq> []) locs)"
proof (induction locs)
  case Nil
  show ?case by simp
next
  case (Cons loc locs)
  from emitted_cases [of env f st loc] show ?case
  proof
    assume "emitted env f st loc = []"
    then show ?thesis using Cons.IH by simp
  next
    assume "\<exists>s. emitted env f st loc = [s] \<and> summarises s loc"
    then obtain s where "emitted env f st loc = [s]" by blast
    then show ?thesis using Cons.IH by simp
  qed
qed

lemma radius_search_sorted:
  assumes "radius_search env f req st = Inr locs"
  shows "sorted (map Dist locs)"
proof -
  let ?found = "sort_key Dist (in_radius env (ReqLongitude req) (ReqLatitude req) (Radius req) (geo st GeoSetKey))"
  have s: "sorted (map Dist ?found)" by (rule sorted_sort_key)
  have "locs = ?found \<or> locs = take (nat (Limit req)) ?found"
    using assms by (auto simp add: radius_search_def GeoRadius_def Let_def split: if_splits)
  then show ?thesis
  proof
    assume "locs = ?found" then show ?thesis using s by simp
  next
    assume "locs = take (nat (Limit req)) ?found"
    then show ?thesis using s by (simp add: take_map [symmetric] sorted_wrt_take)
  qed
qed

lemma radius_search_capped:
  assumes "radius_search env f req st = Inr locs" and "0 < Limit req"
  shows "int (length locs) \<le> Limit req"
  using assms by (auto simp add: radius_search_def GeoRadius_def Let_def split: if_splits)

lemma Limit_with_defaults:
  "Limit (with_defaults req) = (if Limit req = 0 then 10 else Limit req)"
  by (simp add: with_defaults_def)

text \<open>
  C4, as the code has it. The list answered by a query is non-decreasing in distance;
  when the limit of the request is not negative, the list is no longer than the limit in
  force (10 for a limit of 0); and the list is the concatenation, in the order of the
  candidates answered by the radius search (themselves non-decreasing in distance), of
  what the loop emits for each candidate: each summary of the list is exactly the one
  emitted for its candidate, and these candidates form a subsequence of the search's
  answer.
\<close>

theorem nearby_sorted_capped:
  assumes "FindNearbyDrivers env f (Some req) st = respondWithJSON 200 out"
  shows "sorted (map sum_distance out)
       \<and> (0 \<le> Limit req \<longrightarrow> int (length out) \<le> Limit (with_defaults req))
       \<and> (\<exists>locs kept. radius_search env f (with_defaults req) st = Inr locs
             \<and> sorted (map Dist locs) \<and> subseq kept locs
             \<and> list_all2 (\<lambda>s loc. sum_distance s = Dist loc \<and>
                    (s = fallback loc \<or> (\<exists>driver. s = driverWithDist driver loc))) out kept
             \<and> out = concat (map (emitted env f st) locs)
             \<and> kept = filter (\<lambda>loc. emitted env f st loc \<noteq> []) locs
             \<and> list_all2 (\<lambda>s loc. emitted env f st loc = [s]) out kept)"
proof -
  from assms obtain locs where
    search: "radius_search env f (with_defaults req) st = Inr locs" and
    out: "out = nearby_loop env f st locs []"
    by (auto simp add: FindNearbyDrivers_def split: sum.splits)
  define kept where "kept = filter (\<lambda>loc. emitted env f st loc \<noteq> []) locs"
  have rel: "list_all2 summarises out kept"
    unfolding out kept_def nearby_loop_concat using concat_emitted_kept [of env f st locs] by simp
  have sub: "subseq kept locs"
    unfolding kept_def by (rule subseq_filter_left)
  have srt: "sorted (map Dist locs)"
    using search by (rule radius_search_sorted)
  have "map sum_distance out = map Dist kept"
    using rel by (induction rule: list_all2_induct) (simp_all add: summarises_def)
  moreover have "sorted (map Dist kept)"
    unfolding kept_def using srt by (rule sorted_filter)
  ultimately have sorted_out: "sorted (map sum_distance out)" by simp
  have len: "length out \<le> length locs"
    using list_all2_lengthD [OF rel] by (simp add: kept_def)
  have cap: "0 \<le> Limit req \<longrightarrow> int (length out) \<le> Limit (with_defaults req)"
  proof
    assume "0 \<le> Limit req"
    then have "0 < Limit (with_defaults req)" by (simp add: Limit_with_defaults)
    with search have "int (length locs) \<le> Limit (with_defaults req)"
      by (rule radius_search_capped)
    with len show "int (length out) \<le> Limit (with_defaults req)" by simp
  qed
  have shape: "list_all2 (\<lambda>s loc. sum_distance s = Dist loc \<and>
                    (s = fallback loc \<or> (\<exists>driver. s = driverWithDist driver loc))) out kept"
    using rel unfolding summarises_def [abs_def] .
  have cat: "out = concat (map (emitted env f st) locs)"
    unfolding out by (simp add: nearby_loop_concat)
  have exact: "list_all2 (\<lambda>s loc. emitted env f st loc = [s]) out kept"
    unfolding cat kept_def by (rule concat_emitted_exact)
  have "radius_search env f (with_defaults req) st = Inr locs
      \<and> sorted (map Dist locs) \<and> subseq kept locs
      \<and> list_all2 (\<lambda>s loc. sum_distance s = Dist loc \<and>
            (s = fallback loc \<or> (\<exists>driver. s = driverWithDist driver loc))) out kept
      \<and> out = concat (map (emitted env f st) locs)
      \<and> kept = filter (\<lambda>loc. emitted env f st loc \<noteq> []) locs
      \<and> list_all2 (\<lambda>s loc. emitted env f st loc = [s]) out kept"
    using search srt sub shape cat exact kept_def by simp
  then have "\<exists>locs kept. radius_search env f (with_defaults req) st = Inr locs
      \<and> sorted (map Dist locs) \<and> subseq kept locs
      \<and> list_all2 (\<lambda>s loc. sum_distance s = Dist loc \<and>
            (s = fallback loc \<or> (\<exists>driver. s = driverWithDist driver loc))) out kept
      \<and> out = concat (map (emitted env f st) locs)
      \<and> kept = filter (\<lambda>loc. emitted env f st loc \<noteq> []) locs
      \<and> list_all2 (\<lambda>s loc. emitted env f st loc = [s]) out kept"
    by blast
  with sorted_out cap show ?thesis by simp
qed

text \<open>
  The theorem at work: d2 and d1 are active, one and zero units from the centre, and a
  query with limit 1 answers d1 alone, the summary emitted for the one candidate of the
  radius search.
\<close>

theorem nearby_sorted_capped_witness:
  "FindNearbyDrivers codec no_failures (Some query_one)
       (run codec [EvUpdate NoFault (Some upd_d2) 7, EvUpdate NoFault (Some upd_d1) 8] empty_store)
     = respondWithJSON 200
         [\<lparr>sum_id = ''d1'', sum_distance = 0, sum_latitude = 10, sum_longitude = 20,
           sum_isActive = True, sum_lastPing = Some 8\<rparr>]
   \<and> 0 \<le> Limit query_one
   \<and> int (length [\<lparr>sum_id = ''d1'', sum_distance = 0, sum_latitude = 10, sum_longitude = 20,
           sum_isActive = True, sum_lastPing = Some 8\<rparr>]) \<le> Limit (with_defaults query_one)
   \<and> radius_search codec no_failures (with_defaults query_one)
       (run codec [EvUpdate NoFault (Some upd_d2) 7, EvUpdate NoFault (Some upd_d1) 8] empty_store)
     = Inr [loc_d1]
   \<and> emitted codec no_failures
       (run codec [EvUpdate NoFault (Some upd_d2) 7, EvUpdate NoFault (Some upd_d1) 8] empty_store) loc_d1
     = [\<lparr>sum_id = ''d1'', sum_distance = 0, sum_latitude = 10, sum_longitude = 20,
         sum_isActive = True, sum_lastPing = Some 8\<rparr>]"
  using nearby_sorted_capped [of codec no_failures query_one
      "run codec [EvUpdate NoFault (Some upd_d2) 7, EvUpdate NoFault (Some upd_d1) 8] empty_store"
      "[\<lparr>sum_id = ''d1'', sum_distance = 0, sum_latitude = 10, sum_longitude = 20,
           sum_isActive = True, sum_lastPing = Some 8\<rparr>]"]
  by (simp add: model_defs scenario_defs)

text \<open>
  C4 as the spec states it fails for a negative limit. A limit of -1 is not replaced by
  the default, the client library passes no COUNT for a count that is not positive, and
  the search answers every member in range: two summaries for a limit of -1.
\<close>

theorem negative_limit_uncapped:
  "FindNearbyDrivers codec no_failures (Some query_uncapped)
       (run codec [EvUpdate NoFault (Some upd_d2) 7, EvUpdate NoFault (Some upd_d1) 8] empty_store)
     = respondWithJSON 200
         [\<lparr>sum_id = ''d1'', sum_distance = 0, sum_latitude = 10, sum_longitude = 20,
           sum_isActive = True, sum_lastPing = Some 8\<rparr>,
          \<lparr>sum_id = ''d2'', sum_distance = 1, sum_latitude = 10, sum_longitude = 21,
           sum_isActive = True, sum_lastPing = Some 7\<rparr>]
   \<and> Limit query_uncapped = - 1
   \<and> \<not> int (length
         [\<lparr>sum_id = ''d1'', sum_distance = 0, sum_latitude = 10, sum_longitude = 20,
           sum_isActive = True, sum_lastPing = Some 8\<rparr>,
          \<lparr>sum_id = ''d2'', sum_distance = 1, sum_latitude = 10, sum_longitude = 21,
           sum_isActive = True, sum_lastPing = Some 7\<rparr>]) \<le> Limit query_uncapped"
  by (simp add: model_defs scenario_defs)

section \<open>The location update\<close>

lemma update_pipe_list:
  "update_pipe u data =
     [CmdSet (DriverPrefix @ DriverID u) data Minute,
      CmdGeoAdd GeoSetKey (DriverID u) (UpdLongitude u) (UpdLatitude u),
      if UpdIsActive u then CmdSAdd ActiveSetKey (DriverID u) else CmdSRem ActiveSetKey (DriverID u)]"
  by (simp add: update_pipe_def)

lemma update_pipe_kv:
  "kv (fst (run_cmds (update_pipe u data) st)) (DriverPrefix @ DriverID u)
     = Some (data, clock st + Minute)"
  by (simp add: update_pipe_list split_beta)

lemma update_pipe_geo:
  "valid_coord (UpdLongitude u) (UpdLatitude u) \<Longrightarrow>
   map_of (geo (fst (run_cmds (update_pipe u data) st)) GeoSetKey) (DriverID u)
     = Some (UpdLongitude u, UpdLatitude u)"
  by (simp add: update_pipe_list split_beta update_conv')

lemma update_pipe_members:
  "(DriverID u \<in> members (fst (run_cmds (update_pipe u data) st)) ActiveSetKey) = UpdIsActive u"
  by (simp add: update_pipe_list split_beta)

lemma update_pipe_clock:
  "clock (fst (run_cmds (update_pipe u data) st)) = clock st"
  by (simp add: update_pipe_list split_beta)

lemma update_pipe_ok:
  "snd (run_cmds (update_pipe u data) st) = valid_coord (UpdLongitude u) (UpdLatitude u)"
  by (simp add: update_pipe_list split_beta)

lemma UpdateDriverLocation_Exec:
  assumes "marshal env \<lparr>ID = DriverID u, IsActive = UpdIsActive u, Latitude = UpdLatitude u,
                        Longitude = UpdLongitude u, LastPing = now\<rparr> = Some data"
  shows "UpdateDriverLocation env f (Some u) now st =
           (if snd (Exec f (update_pipe u data) st)
            then respondWithJSON 200 ''Driver location updated successfully''
            else respondWithError 500 ''Redis operation failed'',
            fst (Exec f (update_pipe u data) st))"
  using assms by (simp add: UpdateDriverLocation_def split_beta)

text \<open>
  C5. When the driver snapshot (the fields of the update with lastPing set to the time of
  the request) serializes, the update sends one batch of exactly three commands: SET of
  the serialized snapshot under the prefixed key with an expiry of one minute, GEOADD of
  the coordinates under the id, and SADD of the id when the update is active, SREM
  otherwise. The store after the handler is the store after that batch. When the batch
  goes through, the detail record holds the snapshot with a deadline one minute from
  now whatever was there before, the geo index maps the id to the coordinates (if the
  index accepts them), and the id is in the active set exactly when the update is active.
\<close>

theorem upsert_batch:
  assumes "marshal env \<lparr>ID = DriverID u, IsActive = UpdIsActive u, Latitude = UpdLatitude u,
                        Longitude = UpdLongitude u, LastPing = now\<rparr> = Some data"
  shows "update_pipe u data =
           [CmdSet (DriverPrefix @ DriverID u) data Minute,
            CmdGeoAdd GeoSetKey (DriverID u) (UpdLongitude u) (UpdLatitude u),
            if UpdIsActive u then CmdSAdd ActiveSetKey (DriverID u)
            else CmdSRem ActiveSetKey (DriverID u)]
       \<and> UpdateDriverLocation env f (Some u) now st =
           (if snd (Exec f (update_pipe u data) st)
            then respondWithJSON 200 ''Driver location updated successfully''
            else respondWithError 500 ''Redis operation failed'',
            fst (Exec f (update_pipe u data) st))
       \<and> kv (fst (Exec NoFault (update_pipe u data) st)) (DriverPrefix @ DriverID u)
           = Some (data, clock st + Minute)
       \<and> (valid_coord (UpdLongitude u) (UpdLatitude u) \<longrightarrow>
            map_of (geo (fst (Exec NoFault (update_pipe u data) st)) GeoSetKey) (DriverID u)
              = Some (UpdLongitude u, UpdLatitude u))
       \<and> (DriverID u \<in> members (fst (Exec NoFault (update_pipe u data) st)) ActiveSetKey)
           = UpdIsActive u"
proof -
  note UpdateDriverLocation_Exec [OF assms, of f st]
  moreover note update_pipe_list [of u data]
  moreover have "kv (fst (Exec NoFault (update_pipe u data) st)) (DriverPrefix @ DriverID u)
           = Some (data, clock st + Minute)"
    by (simp add: update_pipe_kv)
  moreover have "valid_coord (UpdLongitude u) (UpdLatitude u) \<longrightarrow>
            map_of (geo (fst (Exec NoFault (update_pipe u data) st)) GeoSetKey) (DriverID u)
              = Some (UpdLongitude u, UpdLatitude u)"
    by (simp add: update_pipe_geo)
  moreover have "(DriverID u \<in> members (fst (Exec NoFault (update_pipe u data) st)) ActiveSetKey)
           = UpdIsActive u"
    by (simp add: update_pipe_members)
  ultimately show ?thesis by blast
qed

text \<open>The theorem at work: the batch of the first report of d1 and what it leaves.\<close>

theorem upsert_batch_witness:
  "marshal codec \<lparr>ID = ''d1'', IsActive = True, Latitude = 10, Longitude = 20, LastPing = 7\<rparr>
     = Some (Json \<lparr>ID = ''d1'', IsActive = True, Latitude = 10, Longitude = 20, LastPing = 7\<rparr>)
   \<and> update_pipe upd_d1 (Json \<lparr>ID = ''d1'', IsActive = True, Latitude = 10, Longitude = 20, LastPing = 7\<rparr>)
     = [CmdSet ''driver:d1'' (Json \<lparr>ID = ''d1'', IsActive = True, Latitude = 10, Longitude = 20, LastPing = 7\<rparr>) 60000000000,
        CmdGeoAdd ''driver_locations'' ''d1'' 20 10,
        CmdSAdd ''active_drivers'' ''d1'']
   \<and> valid_coord (UpdLongitude upd_d1) (UpdLatitude upd_d1)
   \<and> map_of (geo (snd (UpdateDriverLocation codec NoFault (Some upd_d1) 7 empty_store)) GeoSetKey) ''d1''
     = Some (20, 10)
   \<and> kv (snd (UpdateDriverLocation codec NoFault (Some upd_d1) 7 empty_store)) ''driver:d1''
     = Some (Json \<lparr>ID = ''d1'', IsActive = True, Latitude = 10, Longitude = 20, LastPing = 7\<rparr>, 60000000000)
   \<and> ''d1'' \<in> members (snd (UpdateDriverLocation codec NoFault (Some upd_d1) 7 empty_store)) ActiveSetKey"
  using upsert_batch [of codec upd_d1 7
      "Json \<lparr>ID = ''d1'', IsActive = True, Latitude = 10, Longitude = 20, LastPing = 7\<rparr>"
      NoFault empty_store]
  by (simp add: model_defs scenario_defs)

lemma successful_update:
  assumes "UpdateDriverLocation env f (Some u) now st = (respondWithJSON 200 msg, st')"
  shows "\<exists>data. marshal env \<lparr>ID = DriverID u, IsActive = UpdIsActive u, Latitude = UpdLatitude u,
                        Longitude = UpdLongitude u, LastPing = now\<rparr> = Some data
           \<and> st' = fst (run_cmds (update_pipe u data) st)"
proof -
  from assms obtain data where
    m: "marshal env \<lparr>ID = DriverID u, IsActive = UpdIsActive u, Latitude = UpdLatitude u,
                        Longitude = UpdLongitude u, LastPing = now\<rparr> = Some data" and
    ex: "Exec f (update_pipe u data) st = (st', True)"
    by (auto simp add: UpdateDriverLocation_def Let_def split: option.splits prod.splits if_splits)
  from ex have "f = NoFault" by (cases f) auto
  with ex m show ?thesis by auto
qed

text \<open>
  C8. After an update that answered 200, and as long as less than a minute has passed
  and nothing else was written, reading the driver's id answers 200 with the id,
  coordinates and active flag of the update (and the time of the update as last ping),
  provided parsing inverts serializing and the GET itself does not fail.
\<close>

theorem read_after_upsert:
  assumes upd: "UpdateDriverLocation env fu (Some u) now st = (respondWithJSON 200 msg, st')"
    and roundtrip: "\<And>d v. marshal env d = Some v \<Longrightarrow> unmarshal env v = Some d"
    and early: "n < Minute"
    and reachable: "\<not> GetErr f (DriverPrefix @ DriverID u)"
  shows "GetDriver env f (DriverID u) (step env (EvTick n) st') =
           respondWithJSON 200
             \<lparr>ID = DriverID u, IsActive = UpdIsActive u, Latitude = UpdLatitude u,
              Longitude = UpdLongitude u, LastPing = now\<rparr>"
proof -
  let ?driver = "\<lparr>ID = DriverID u, IsActive = UpdIsActive u, Latitude = UpdLatitude u,
                        Longitude = UpdLongitude u, LastPing = now\<rparr>"
  from successful_update [OF upd] obtain data where
    m: "marshal env ?driver = Some data" and st': "st' = fst (run_cmds (update_pipe u data) st)"
    by blast
  have k: "kv st' (DriverPrefix @ DriverID u) = Some (data, clock st + Minute)"
    unfolding st' by (rule update_pipe_kv)
  have c: "clock st' = clock st"
    unfolding st' by (rule update_pipe_clock)
  have "Get f (step env (EvTick n) st') (DriverPrefix @ DriverID u) = Inr data"
    using k c early reachable by (simp add: Get_def)
  moreover have "unmarshal env data = Some ?driver"
    using m by (rule roundtrip)
  ultimately show ?thesis by (simp add: GetDriver_def)
qed

text \<open>The theorem at work: d1 is read 59 seconds after its report.\<close>

theorem read_after_upsert_witness:
  "UpdateDriverLocation codec NoFault (Some upd_d1) 7 empty_store
     = (respondWithJSON 200 ''Driver location updated successfully'',
        run codec [EvUpdate NoFault (Some upd_d1) 7] empty_store)
   \<and> (59000000000::nat) < Minute
   \<and> GetDriver codec no_failures (DriverID upd_d1)
       (step codec (EvTick 59000000000) (run codec [EvUpdate NoFault (Some upd_d1) 7] empty_store))
     = respondWithJSON 200
         \<lparr>ID = ''d1'', IsActive = True, Latitude = 10, Longitude = 20, LastPing = 7\<rparr>"
proof -
  have roundtrip: "\<And>d v. marshal codec d = Some v \<Longrightarrow> unmarshal codec v = Some d"
    by (auto simp add: codec_def)
  show ?thesis
    using read_after_upsert [of codec NoFault upd_d1 7 empty_store
        "''Driver location updated successfully''"
        "run codec [EvUpdate NoFault (Some upd_d1) 7] empty_store" 59000000000 no_failures,
        OF _ roundtrip]
    by (simp add: model_defs scenario_defs)
qed

text \<open>
  C10. An update whose driver id is the empty string is not rejected: its batch is the
  SET under the bare prefix key, the GEOADD of a member with the empty name and the
  SADD or SREM of the empty id; when the store takes the batch, the handler answers 200,
  the detail record sits under the key \<open>driver:\<close>, the geo index has a member named by
  the empty string, and the empty id is in the active set exactly when the update is
  active.
\<close>

theorem empty_id_accepted:
  assumes "DriverID u = ''''"
    and "marshal env \<lparr>ID = '''', IsActive = UpdIsActive u, Latitude = UpdLatitude u,
                        Longitude = UpdLongitude u, LastPing = now\<rparr> = Some data"
    and "valid_coord (UpdLongitude u) (UpdLatitude u)"
  shows "update_pipe u data =
           [CmdSet ''driver:'' data Minute,
            CmdGeoAdd GeoSetKey '''' (UpdLongitude u) (UpdLatitude u),
            if UpdIsActive u then CmdSAdd ActiveSetKey '''' else CmdSRem ActiveSetKey '''']
       \<and> fst (UpdateDriverLocation env NoFault (Some u) now st)
           = respondWithJSON 200 ''Driver location updated successfully''
       \<and> kv (snd (UpdateDriverLocation env NoFault (Some u) now st)) ''driver:''
           = Some (data, clock st + Minute)
       \<and> map_of (geo (snd (UpdateDriverLocation env NoFault (Some u) now st)) GeoSetKey) ''''
           = Some (UpdLongitude u, UpdLatitude u)
       \<and> ('''' \<in> members (snd (UpdateDriverLocation env NoFault (Some u) now st)) ActiveSetKey)
           = UpdIsActive u"
proof -
  have m: "marshal env \<lparr>ID = DriverID u, IsActive = UpdIsActive u, Latitude = UpdLatitude u,
                        Longitude = UpdLongitude u, LastPing = now\<rparr> = Some data"
    using assms(1,2) by simp
  have key: "DriverPrefix @ DriverID u = ''driver:''"
    using assms(1) by (simp add: DriverPrefix_def)
  have pipe: "update_pipe u data =
           [CmdSet ''driver:'' data Minute,
            CmdGeoAdd GeoSetKey '''' (UpdLongitude u) (UpdLatitude u),
            if UpdIsActive u then CmdSAdd ActiveSetKey '''' else CmdSRem ActiveSetKey '''']"
    using update_pipe_list [of u data] key assms(1) by simp
  have resp: "fst (UpdateDriverLocation env NoFault (Some u) now st)
           = respondWithJSON 200 ''Driver location updated successfully''"
    using assms(3) by (simp add: UpdateDriverLocation_Exec [OF m] update_pipe_ok)
  have st: "snd (UpdateDriverLocation env NoFault (Some u) now st)
           = fst (run_cmds (update_pipe u data) st)"
    by (simp add: UpdateDriverLocation_Exec [OF m])
  have "kv (snd (UpdateDriverLocation env NoFault (Some u) now st)) ''driver:''
           = Some (data, clock st + Minute)"
    using update_pipe_kv [of u data st] key st by simp
  moreover have "map_of (geo (snd (UpdateDriverLocation env NoFault (Some u) now st)) GeoSetKey) ''''
           = Some (UpdLongitude u, UpdLatitude u)"
    using update_pipe_geo [OF assms(3), of data st] assms(1) st by simp
  moreover have "('''' \<in> members (snd (UpdateDriverLocation env NoFault (Some u) now st)) ActiveSetKey)
           = UpdIsActive u"
    using update_pipe_members [of u data st] assms(1) st by simp
  ultimately show ?thesis using pipe resp by blast
qed

text \<open>The theorem at work: the store after an update with the empty id.\<close>

theorem empty_id_accepted_witness:
  "DriverID upd_anonymous = ''''
   \<and> valid_coord (UpdLongitude upd_anonymous) (UpdLatitude upd_anonymous)
   \<and> UpdateDriverLocation codec NoFault (Some upd_anonymous) 7 empty_store
     = (respondWithJSON 200 ''Driver location updated successfully'',
        \<lparr>kv = (\<lambda>k. None)(''driver:'' \<mapsto>
                 (Json \<lparr>ID = '''', IsActive = True, Latitude = 10, Longitude = 20, LastPing = 7\<rparr>,
                  60000000000)),
         geo = (\<lambda>k. [])(''driver_locations'' := [('''', 20, 10)]),
         members = (\<lambda>k. {})(''active_drivers'' := {''''}),
         clock = 0\<rparr>)"
  using empty_id_accepted [of upd_anonymous codec 7
      "Json \<lparr>ID = '''', IsActive = True, Latitude = 10, Longitude = 20, LastPing = 7\<rparr>" empty_store]
  by (simp add: model_defs scenario_defs)

section \<open>Inactive drivers\<close>

lemma keyed_apply_cmd:
  "keyed env st \<Longrightarrow> keyed_cmd env c \<Longrightarrow> keyed env (fst (apply_cmd c st))"
  by (cases c) (auto simp add: keyed_def)

lemma keyed_run_cmds:
  "keyed env st \<Longrightarrow> list_all (keyed_cmd env) cs \<Longrightarrow> keyed env (fst (run_cmds cs st))"
proof (induction cs arbitrary: st)
  case Nil
  then show ?case by simp
next
  case (Cons c cs)
  from Cons.prems have "keyed env (fst (apply_cmd c st))"
    by (simp add: keyed_apply_cmd)
  with Cons.prems Cons.IH [of "fst (apply_cmd c st)"] show ?case
    by (simp add: split_beta)
qed

lemma keyed_Exec:
  assumes "keyed env st" and "list_all (keyed_cmd env) cs"
  shows "keyed env (fst (Exec f cs st))"
proof (cases f)
  case NoFault
  with assms show ?thesis by (simp add: keyed_run_cmds)
next
  case (BreakAt n)
  have "list_all (keyed_cmd env) (take n cs)"
    using assms(2) by (auto simp add: list_all_iff dest: in_set_takeD)
  with assms(1) BreakAt show ?thesis by (simp add: keyed_run_cmds)
qed

lemma inactive_apply_cmd:
  "x \<notin> members st ActiveSetKey \<Longrightarrow> \<not> adds x c \<Longrightarrow> x \<notin> members (fst (apply_cmd c st)) ActiveSetKey"
  by (cases c) (auto split: if_splits)

lemma inactive_run_cmds:
  "x \<notin> members st ActiveSetKey \<Longrightarrow> list_all (\<lambda>c. \<not> adds x c) cs \<Longrightarrow>
   x \<notin> members (fst (run_cmds cs st)) ActiveSetKey"
proof (induction cs arbitrary: st)
  case Nil
  then show ?case by simp
next
  case (Cons c cs)
  from Cons.prems have "x \<notin> members (fst (apply_cmd c st)) ActiveSetKey"
    by (simp add: inactive_apply_cmd)
  with Cons.prems Cons.IH [of "fst (apply_cmd c st)"] show ?case
    by (simp add: split_beta)
qed

lemma inactive_Exec:
  assumes "x \<notin> members st ActiveSetKey" and "list_all (\<lambda>c. \<not> adds x c) cs"
  shows "x \<notin> members (fst (Exec f cs st)) ActiveSetKey"
proof (cases f)
  case NoFault
  with assms show ?thesis by (simp add: inactive_run_cmds)
next
  case (BreakAt n)
  have "list_all (\<lambda>c. \<not> adds x c) (take n cs)"
    using assms(2) by (auto simp add: list_all_iff dest: in_set_takeD)
  with assms(1) BreakAt show ?thesis by (simp add: inactive_run_cmds)
qed

lemma update_store:
  "snd (UpdateDriverLocation env f body now st) = st \<or>
   (\<exists>u data. body = Some u \<and>
      marshal env \<lparr>ID = DriverID u, IsActive = UpdIsActive u, Latitude = UpdLatitude u,
                   Longitude = UpdLongitude u, LastPing = now\<rparr> = Some data \<and>
      snd (UpdateDriverLocation env f body now st) = fst (Exec f (update_pipe u data) st))"
  by (auto simp add: UpdateDriverLocation_def Let_def split_beta split: option.split)

lemma expired_store:
  "r_store (on_expired (key, f) \<lparr>r_store = st, r_log = [], r_sent = []\<rparr>) = st \<or>
   r_store (on_expired (key, f) \<lparr>r_store = st, r_log = [], r_sent = []\<rparr>)
     = fst (Exec f [CmdZRem GeoSetKey (TrimPrefix key DriverPrefix),
                    CmdSRem ActiveSetKey (TrimPrefix key DriverPrefix)] st)"
  by (simp add: on_expired_def expired_pipe_def Let_def split_beta)

lemma keyed_step:
  assumes codec: "\<And>d v d'. marshal env d = Some v \<Longrightarrow> unmarshal env v = Some d' \<Longrightarrow> ID d' = ID d"
    and "keyed env st"
  shows "keyed env (step env e st)"
proof (cases e)
  case (EvUpdate f body now)
  from update_store [of env f body now st] show ?thesis
  proof
    assume "snd (UpdateDriverLocation env f body now st) = st"
    with EvUpdate assms(2) show ?thesis by simp
  next
    assume "\<exists>u data. body = Some u \<and>
      marshal env \<lparr>ID = DriverID u, IsActive = UpdIsActive u, Latitude = UpdLatitude u,
                   Longitude = UpdLongitude u, LastPing = now\<rparr> = Some data \<and>
      snd (UpdateDriverLocation env f body now st) = fst (Exec f (update_pipe u data) st)"
    then obtain u data where
      m: "marshal env \<lparr>ID = DriverID u, IsActive = UpdIsActive u, Latitude = UpdLatitude u,
                   Longitude = UpdLongitude u, LastPing = now\<rparr> = Some data" and
      s: "snd (UpdateDriverLocation env f body now st) = fst (Exec f (update_pipe u data) st)"
      by blast
    have "\<And>d'. unmarshal env data = Some d' \<Longrightarrow> ID d' = DriverID u"
      using codec [OF m] by simp
    then have "list_all (keyed_cmd env) (update_pipe u data)"
      by (auto simp add: update_pipe_list)
    with assms(2) have "keyed env (fst (Exec f (update_pipe u data) st))"
      by (rule keyed_Exec)
    with EvUpdate s show ?thesis by simp
  qed
next
  case (EvExpired key f)
  have "keyed env (fst (Exec f [CmdZRem GeoSetKey (TrimPrefix key DriverPrefix),
                    CmdSRem ActiveSetKey (TrimPrefix key DriverPrefix)] st))"
    using assms(2) by (rule keyed_Exec) simp
  with expired_store [of key f st] assms(2) EvExpired show ?thesis by auto
next
  case (EvTick n)
  with assms(2) show ?thesis by (simp add: keyed_def)
qed

lemma keyed_run:
  assumes codec: "\<And>d v d'. marshal env d = Some v \<Longrightarrow> unmarshal env v = Some d' \<Longrightarrow> ID d' = ID d"
  shows "keyed env st \<Longrightarrow> keyed env (run env es st)"
proof (induction es arbitrary: st)
  case Nil
  then show ?case by simp
next
  case (Cons e es)
  from codec Cons.prems have "keyed env (step env e st)" by (rule keyed_step)
  then show ?case using Cons.IH by simp
qed

lemma keyed_empty: "keyed env empty_store"
  by (simp add: keyed_def empty_store_def)

lemma inactive_step:
  assumes "x \<notin> members st ActiveSetKey" and "\<not> updates x e"
  shows "x \<notin> members (step env e st) ActiveSetKey"
proof (cases e)
  case (EvUpdate f body now)
  from update_store [of env f body now st] show ?thesis
  proof
    assume "snd (UpdateDriverLocation env f body now st) = st"
    with EvUpdate assms(1) show ?thesis by simp
  next
    assume "\<exists>u data. body = Some u \<and>
      marshal env \<lparr>ID = DriverID u, IsActive = UpdIsActive u, Latitude = UpdLatitude u,
                   Longitude = UpdLongitude u, LastPing = now\<rparr> = Some data \<and>
      snd (UpdateDriverLocation env f body now st) = fst (Exec f (update_pipe u data) st)"
    then obtain u data where b: "body = Some u" and
      s: "snd (UpdateDriverLocation env f body now st) = fst (Exec f (update_pipe u data) st)"
      by blast
    from b EvUpdate assms(2) have "DriverID u \<noteq> x" by simp
    then have "list_all (\<lambda>c. \<not> adds x c) (update_pipe u data)"
      by (simp add: update_pipe_list)
    with assms(1) have "x \<notin> members (fst (Exec f (update_pipe u data) st)) ActiveSetKey"
      by (rule inactive_Exec)
    with EvUpdate s show ?thesis by simp
  qed
next
  case (EvExpired key f)
  have "x \<notin> members (fst (Exec f [CmdZRem GeoSetKey (TrimPrefix key DriverPrefix),
                    CmdSRem ActiveSetKey (TrimPrefix key DriverPrefix)] st)) ActiveSetKey"
    using assms(1) by (rule inactive_Exec) simp
  with expired_store [of key f st] assms(1) EvExpired show ?thesis by auto
next
  case (EvTick n)
  with assms(1) show ?thesis by simp
qed

lemma inactive_run:
  "x \<notin> members st ActiveSetKey \<Longrightarrow> \<forall>e \<in> set es. \<not> updates x e \<Longrightarrow>
   x \<notin> members (run env es st) ActiveSetKey"
proof (induction es arbitrary: st)
  case Nil
  then show ?case by simp
next
  case (Cons e es)
  from Cons.prems have "x \<notin> members (step env e st) ActiveSetKey"
    by (simp add: inactive_step)
  with Cons.prems Cons.IH [of "step env e st"] show ?case by simp
qed

lemma emitted_active:
  assumes "keyed env st" and "s \<in> set (emitted env f st loc)"
  shows "sum_id s \<in> members st ActiveSetKey"
proof -
  from assms(2) have act: "Name loc \<in> members st ActiveSetKey"
    by (auto simp add: emitted_def SIsMember_def split: if_splits sum.splits)
  from assms(2) have "s = fallback loc \<or>
      (\<exists>data driver. Get f st (DriverPrefix @ Name loc) = Inr data \<and>
        unmarshal env data = Some driver \<and> s = driverWithDist driver loc)"
    by (auto simp add: emitted_def split: if_splits sum.splits option.splits)
  then show ?thesis
  proof
    assume "s = fallback loc"
    with act show ?thesis by (simp add: fallback_def)
  next
    assume "\<exists>data driver. Get f st (DriverPrefix @ Name loc) = Inr data \<and>
        unmarshal env data = Some driver \<and> s = driverWithDist driver loc"
    then obtain data driver where
      g: "Get f st (DriverPrefix @ Name loc) = Inr data" and
      u: "unmarshal env data = Some driver" and s: "s = driverWithDist driver loc"
      by blast
    from g obtain deadline where "kv st (DriverPrefix @ Name loc) = Some (data, deadline)"
      by (auto simp add: Get_def split: if_splits option.splits)
    with assms(1) u have "DriverPrefix @ Name loc = DriverPrefix @ ID driver"
      unfolding keyed_def by blast
    then have "Name loc = ID driver" by simp
    with act s show ?thesis by (simp add: driverWithDist_def)
  qed
qed

lemma successful_inactive_update:
  assumes "UpdateDriverLocation env f (Some u) now st = (respondWithJSON 200 msg, st')"
    and "\<not> UpdIsActive u"
  shows "DriverID u \<notin> members st' ActiveSetKey"
proof -
  from assms(1) obtain data where
    ex: "Exec f (update_pipe u data) st = (st', True)"
    by (auto simp add: UpdateDriverLocation_def Let_def split: option.splits prod.splits if_splits)
  then have "f = NoFault" by (cases f) auto
  with ex assms(2) show ?thesis
    by (auto simp add: update_pipe_list Let_def split: if_splits prod.splits)
qed

text \<open>
  C3, as the code has it. Take any state reached from the empty store, an update of a
  driver with isActive=false that answers 200 there, and any further run with no update
  of that driver (updates of other drivers, with or without failures, expiry
  notifications, time). No query on the resulting state, whatever its centre, radius and
  limit and whatever store calls fail during it, answers a summary with that driver's
  id. The serialization is assumed to keep the id: what parses from a serialized driver
  has the id of that driver.
\<close>

theorem inactive_driver_not_listed:
  assumes codec: "\<And>d v d'. marshal env d = Some v \<Longrightarrow> unmarshal env v = Some d' \<Longrightarrow> ID d' = ID d"
    and upd: "UpdateDriverLocation env fu (Some u) now (run env before empty_store)
                = (respondWithJSON 200 msg, st)"
    and inactive: "\<not> UpdIsActive u"
    and later: "\<forall>e \<in> set after. \<not> updates (DriverID u) e"
    and query: "FindNearbyDrivers env f body (run env after st) = respondWithJSON 200 out"
  shows "\<forall>s \<in> set out. sum_id s \<noteq> DriverID u"
proof
  fix s assume s: "s \<in> set out"
  let ?st = "run env after st"
  have "keyed env (run env before empty_store)"
    using codec keyed_empty by (rule keyed_run)
  with codec have "keyed env (step env (EvUpdate fu (Some u) now) (run env before empty_store))"
    by (rule keyed_step)
  with upd have "keyed env st" by simp
  with codec have k: "keyed env ?st" by (rule keyed_run)
  from upd inactive have "DriverID u \<notin> members st ActiveSetKey"
    by (rule successful_inactive_update)
  then have off: "DriverID u \<notin> members ?st ActiveSetKey"
    using later by (rule inactive_run)
  from query obtain locs where "out = nearby_loop env f ?st locs []"
    by (auto simp add: FindNearbyDrivers_def split: option.splits sum.splits)
  with s obtain loc where "s \<in> set (emitted env f ?st loc)"
    by (auto simp add: nearby_loop_concat)
  with k have "sum_id s \<in> members ?st ActiveSetKey" by (rule emitted_active)
  with off show "sum_id s \<noteq> DriverID u" by auto
qed

text \<open>
  The theorem at work: d1 reports active, then inactive; five units of time later d2
  reports one unit away. A query centred on d1 answers d2 alone.
\<close>

theorem inactive_driver_not_listed_witness:
  "UpdateDriverLocation codec NoFault (Some upd_d1_off) 9
       (run codec [EvUpdate NoFault (Some upd_d1) 7] empty_store)
     = (respondWithJSON 200 ''Driver location updated successfully'',
        run codec [EvUpdate NoFault (Some upd_d1) 7, EvUpdate NoFault (Some upd_d1_off) 9] empty_store)
   \<and> \<not> UpdIsActive upd_d1_off
   \<and> FindNearbyDrivers codec no_failures (Some query_d1)
       (run codec [EvTick 5, EvUpdate NoFault (Some upd_d2) 12]
         (run codec [EvUpdate NoFault (Some upd_d1) 7, EvUpdate NoFault (Some upd_d1_off) 9] empty_store))
     = respondWithJSON 200
         [\<lparr>sum_id = ''d2'', sum_distance = 1, sum_latitude = 10, sum_longitude = 21,
           sum_isActive = True, sum_lastPing = Some 12\<rparr>]
   \<and> sum_id \<lparr>sum_id = ''d2'', sum_distance = 1, sum_latitude = 10, sum_longitude = 21,
           sum_isActive = True, sum_lastPing = Some 12\<rparr> \<noteq> DriverID upd_d1_off"
proof -
  have keeps_id: "\<And>d v d'. marshal codec d = Some v \<Longrightarrow> unmarshal codec v = Some d' \<Longrightarrow> ID d' = ID d"
    by (auto simp add: codec_def)
  show ?thesis
    using inactive_driver_not_listed [of codec NoFault upd_d1_off 9
        "[EvUpdate NoFault (Some upd_d1) 7]" "''Driver location updated successfully''"
        "run codec [EvUpdate NoFault (Some upd_d1) 7, EvUpdate NoFault (Some upd_d1_off) 9] empty_store"
        "[EvTick 5, EvUpdate NoFault (Some upd_d2) 12]" no_failures "Some query_d1"
        "[\<lparr>sum_id = ''d2'', sum_distance = 1, sum_latitude = 10, sum_longitude = 21,
           sum_isActive = True, sum_lastPing = Some 12\<rparr>]", OF keeps_id]
    by (simp add: model_defs scenario_defs)
qed

text \<open>
  C3 as the spec states it fails when the batch of the update breaks. Driver d1 reports
  active at (10, 20); its next report carries isActive=false, and the connection breaks
  after the SET and the GEOADD of the batch, before the SREM that is queued last. The
  update answers 500, the active set still holds d1, and a query centred on d1 lists it,
  with the active flag of the rewritten detail record.
\<close>

theorem broken_inactive_update_listed:
  "UpdateDriverLocation codec (BreakAt 2) (Some upd_d1_off) 9
       (run codec [EvUpdate NoFault (Some upd_d1) 7] empty_store)
     = (respondWithError 500 ''Redis operation failed'',
        run codec [EvUpdate NoFault (Some upd_d1) 7, EvUpdate (BreakAt 2) (Some upd_d1_off) 9] empty_store)
   \<and> \<not> UpdIsActive upd_d1_off
   \<and> DriverID upd_d1_off = ''d1''
   \<and> FindNearbyDrivers codec no_failures (Some query_d1)
       (run codec [EvUpdate NoFault (Some upd_d1) 7, EvUpdate (BreakAt 2) (Some upd_d1_off) 9] empty_store)
     = respondWithJSON 200
         [\<lparr>sum_id = ''d1'', sum_distance = 0, sum_latitude = 10, sum_longitude = 20,
           sum_isActive = False, sum_lastPing = Some 9\<rparr>]"
  by (simp add: model_defs scenario_defs)

section \<open>The expiration listener\<close>

lemma HasPrefix_TrimPrefix: "HasPrefix key p \<Longrightarrow> key = p @ TrimPrefix key p"
proof -
  assume h: "HasPrefix key p"
  then have "take (length p) key = p" by (simp add: HasPrefix_def)
  then have "p @ drop (length p) key = key" by (metis append_take_drop_id)
  with h show ?thesis by (simp add: TrimPrefix_def)
qed

lemma expired_pipe_list:
  "expired_pipe driverID = [CmdZRem GeoSetKey driverID, CmdSRem ActiveSetKey driverID]"
  by (simp add: expired_pipe_def)

lemma expired_pipe_ok: "snd (Exec f (expired_pipe driverID) st) = (f = NoFault)"
  by (cases f) (simp_all add: expired_pipe_list split_beta)

lemma expired_pipe_geo:
  "map_of (geo (fst (Exec NoFault (expired_pipe driverID) st)) GeoSetKey) driverID = None"
  by (simp add: expired_pipe_list split_beta delete_conv')

lemma expired_pipe_members:
  "driverID \<notin> members (fst (Exec NoFault (expired_pipe driverID) st)) ActiveSetKey"
  by (simp add: expired_pipe_list split_beta)

lemma on_expired_other: "\<not> HasPrefix key DriverPrefix \<Longrightarrow> on_expired (key, f) r = r"
  by (simp add: on_expired_def)

lemma on_expired_driver:
  assumes "HasPrefix key DriverPrefix"
  shows "on_expired (key, f) r =
           \<lparr>r_store = fst (Exec f (expired_pipe (TrimPrefix key DriverPrefix)) (r_store r)),
            r_log = (if f = NoFault then r_log r
                     else r_log r @ [''Error cleaning up expired driver '' @ TrimPrefix key DriverPrefix]),
            r_sent = r_sent r @ [expired_pipe (TrimPrefix key DriverPrefix)]\<rparr>"
proof -
  let ?pipe = "expired_pipe (TrimPrefix key DriverPrefix) :: 'a cmd list"
  have "on_expired (key, f) r =
          (let st1 = fst (Exec f ?pipe (r_store r)); ok = snd (Exec f ?pipe (r_store r));
               r1 = r\<lparr>r_store := st1, r_sent := r_sent r @ [?pipe]\<rparr>
           in if \<not> ok then r1\<lparr>r_log := r_log r1 @ [''Error cleaning up expired driver '' @ TrimPrefix key DriverPrefix]\<rparr>
              else r1)"
    using assms by (simp add: on_expired_def Let_def split_beta)
  then show ?thesis
    by (cases r) (simp add: expired_pipe_ok Let_def)
qed

lemma listener_sent:
  "r_sent (setupExpirationListener ch r) =
     r_sent r @ map (\<lambda>msg. expired_pipe (TrimPrefix (fst msg) DriverPrefix))
                  (filter (\<lambda>msg. HasPrefix (fst msg) DriverPrefix) ch)"
proof (induction ch arbitrary: r)
  case Nil
  show ?case by simp
next
  case (Cons msg ch)
  obtain key f where msg: "msg = (key, f)" by (cases msg)
  show ?case
  proof (cases "HasPrefix key DriverPrefix")
    case True
    then show ?thesis
      using Cons.IH [of "on_expired msg r"] by (simp add: msg on_expired_driver)
  next
    case False
    then show ?thesis
      using Cons.IH [of "on_expired msg r"] by (simp add: msg on_expired_other)
  qed
qed

text \<open>
  C6. For a notification whose key does not start with the prefix of the detail records,
  the listener changes nothing: store, log and sent batches stay as they are. For a key
  that starts with it, the id is the key without the prefix; one batch is sent, the
  removal of the id from the geo index followed by its removal from the active set; the
  store is the store after that batch; a failing batch adds one line to the log. When the
  batch goes through, the id is in neither the geo index nor the active set. The loop
  then goes on with the next notification, and over any sequence of notifications and
  any failures it sends exactly one batch for each notification that carries the prefix.
\<close>

theorem expiry_notification:
  "(\<not> HasPrefix key DriverPrefix \<longrightarrow> on_expired (key, f) r = r)
   \<and> (HasPrefix key DriverPrefix \<longrightarrow>
        key = DriverPrefix @ TrimPrefix key DriverPrefix
        \<and> on_expired (key, f) r =
            \<lparr>r_store = fst (Exec f [CmdZRem GeoSetKey (TrimPrefix key DriverPrefix),
                                     CmdSRem ActiveSetKey (TrimPrefix key DriverPrefix)] (r_store r)),
             r_log = (if f = NoFault then r_log r
                      else r_log r @ [''Error cleaning up expired driver '' @ TrimPrefix key DriverPrefix]),
             r_sent = r_sent r @ [[CmdZRem GeoSetKey (TrimPrefix key DriverPrefix),
                                   CmdSRem ActiveSetKey (TrimPrefix key DriverPrefix)]]\<rparr>
        \<and> (f = NoFault \<longrightarrow>
             map_of (geo (r_store (on_expired (key, f) r)) GeoSetKey) (TrimPrefix key DriverPrefix) = None
             \<and> TrimPrefix key DriverPrefix \<notin> members (r_store (on_expired (key, f) r)) ActiveSetKey))
   \<and> setupExpirationListener ((key, f) # ch) r = setupExpirationListener ch (on_expired (key, f) r)
   \<and> r_sent (setupExpirationListener ch r) =
        r_sent r @ map (\<lambda>msg. [CmdZRem GeoSetKey (TrimPrefix (fst msg) DriverPrefix),
                               CmdSRem ActiveSetKey (TrimPrefix (fst msg) DriverPrefix)])
                     (filter (\<lambda>msg. HasPrefix (fst msg) DriverPrefix) ch)"
proof -
  have other: "\<not> HasPrefix key DriverPrefix \<longrightarrow> on_expired (key, f) r = r"
    by (simp add: on_expired_other)
  have driver: "HasPrefix key DriverPrefix \<longrightarrow>
        key = DriverPrefix @ TrimPrefix key DriverPrefix
        \<and> on_expired (key, f) r =
            \<lparr>r_store = fst (Exec f [CmdZRem GeoSetKey (TrimPrefix key DriverPrefix),
                                     CmdSRem ActiveSetKey (TrimPrefix key DriverPrefix)] (r_store r)),
             r_log = (if f = NoFault then r_log r
                      else r_log r @ [''Error cleaning up expired driver '' @ TrimPrefix key DriverPrefix]),
             r_sent = r_sent r @ [[CmdZRem GeoSetKey (TrimPrefix key DriverPrefix),
                                   CmdSRem ActiveSetKey (TrimPrefix key DriverPrefix)]]\<rparr>
        \<and> (f = NoFault \<longrightarrow>
             map_of (geo (r_store (on_expired (key, f) r)) GeoSetKey) (TrimPrefix key DriverPrefix) = None
             \<and> TrimPrefix key DriverPrefix \<notin> members (r_store (on_expired (key, f) r)) ActiveSetKey)"
  proof
    assume h: "HasPrefix key DriverPrefix"
    have a: "key = DriverPrefix @ TrimPrefix key DriverPrefix"
      using h by (rule HasPrefix_TrimPrefix)
    note b = on_expired_driver [OF h, of f r, unfolded expired_pipe_list]
    have c: "f = NoFault \<longrightarrow>
             map_of (geo (r_store (on_expired (key, f) r)) GeoSetKey) (TrimPrefix key DriverPrefix) = None
             \<and> TrimPrefix key DriverPrefix \<notin> members (r_store (on_expired (key, f) r)) ActiveSetKey"
      using expired_pipe_geo [of "TrimPrefix key DriverPrefix" "r_store r"]
        expired_pipe_members [of "TrimPrefix key DriverPrefix" "r_store r"]
      by (simp add: on_expired_driver [OF h])
    from a b c show "key = DriverPrefix @ TrimPrefix key DriverPrefix
        \<and> on_expired (key, f) r =
            \<lparr>r_store = fst (Exec f [CmdZRem GeoSetKey (TrimPrefix key DriverPrefix),
                                     CmdSRem ActiveSetKey (TrimPrefix key DriverPrefix)] (r_store r)),
             r_log = (if f = NoFault then r_log r
                      else r_log r @ [''Error cleaning up expired driver '' @ TrimPrefix key DriverPrefix]),
             r_sent = r_sent r @ [[CmdZRem GeoSetKey (TrimPrefix key DriverPrefix),
                                   CmdSRem ActiveSetKey (TrimPrefix key DriverPrefix)]]\<rparr>
        \<and> (f = NoFault \<longrightarrow>
             map_of (geo (r_store (on_expired (key, f) r)) GeoSetKey) (TrimPrefix key DriverPrefix) = None
             \<and> TrimPrefix key DriverPrefix \<notin> members (r_store (on_expired (key, f) r)) ActiveSetKey)"
      by blast
  qed
  have continue: "setupExpirationListener ((key, f) # ch) r = setupExpirationListener ch (on_expired (key, f) r)"
    by simp
  note sent = listener_sent [of ch r, unfolded expired_pipe_list]
  from other driver continue sent show ?thesis by blast
qed

text \<open>
  The theorem at work: a key of another kind is ignored; the key of d1 removes d1 from
  both views; a broken batch is logged, and the notifications after it are handled.
\<close>

theorem expiry_notification_witness:
  "\<not> HasPrefix ''session:9'' DriverPrefix
   \<and> on_expired (''session:9'', NoFault) reaper_d1 = reaper_d1
   \<and> HasPrefix ''driver:d1'' DriverPrefix
   \<and> TrimPrefix ''driver:d1'' DriverPrefix = ''d1''
   \<and> on_expired (''driver:d1'', NoFault) reaper_d1
       = \<lparr>r_store = \<lparr>kv = (\<lambda>k. None)(''driver:d1'' \<mapsto>
                          (Json \<lparr>ID = ''d1'', IsActive = True, Latitude = 10, Longitude = 20, LastPing = 7\<rparr>,
                           60000000000)),
                     geo = (\<lambda>k. [])(''driver_locations'' := []),
                     members = (\<lambda>k. {})(''active_drivers'' := {}),
                     clock = 0\<rparr>,
          r_log = [],
          r_sent = [[CmdZRem ''driver_locations'' ''d1'', CmdSRem ''active_drivers'' ''d1'']]\<rparr>
   \<and> r_log (on_expired (''driver:d1'', BreakAt 1) reaper_d1) = [''Error cleaning up expired driver d1'']
   \<and> r_sent (setupExpirationListener [(''driver:d1'', BreakAt 0), (''session:9'', NoFault), (''driver:d2'', NoFault)] reaper_d1)
       = [[CmdZRem ''driver_locations'' ''d1'', CmdSRem ''active_drivers'' ''d1''],
          [CmdZRem ''driver_locations'' ''d2'', CmdSRem ''active_drivers'' ''d2'']]"
  using expiry_notification [of "''session:9''" NoFault reaper_d1 "[]"]
    expiry_notification [of "''driver:d1''" NoFault reaper_d1 "[]"]
    expiry_notification [of "''driver:d1''" "BreakAt 1" reaper_d1
      "[(''driver:d1'', BreakAt 0), (''session:9'', NoFault), (''driver:d2'', NoFault)]"]
  by (simp add: model_defs scenario_defs)

end
